theory Spec2Isabelle
  imports Complex_Main "HOL-Library.Char_ord" "HOL-Library.List_Lexorder"
    "HOL-Library.Product_Lexorder"
begin

section \<open>geneshot: \<open>bin/add_corncob_results.py\<close>\<close>

text \<open>
  The script reshapes the long table of corncob results into a wide table, adds FDR
  corrected q-values and the Wald statistic, labels genes with the names of their
  taxonomic ancestors and writes the results grouped by annotation in batches.
  Each function of the script is embedded below under its own name. Exceptions are
  values of \<open>error\<close>; a function that may raise returns \<open>error + 'a\<close>.
\<close>

datatype error =
    KeyError string
  | ValueError string
  | AssertionError

subsection \<open>Class \<open>Taxonomy\<close>\<close>








subsection \<open>\<open>annotate_taxa\<close>: the ancestor at a rank\<close>









subsection \<open>Data frames\<close>

text \<open>
  A cell of a data frame holds a string, an integer or a number; a missing cell (NaN)
  is \<open>None\<close>. A row maps the names of the columns to cells, a frame is the list of its
  column names and the list of its rows. Numbers are reals: no property below depends
  on floating point rounding.
\<close>

datatype cell = S string | I int | N real

type_synonym row = "string \<rightharpoonup> cell"

record frame =
  columns :: "string list"
  rows :: "row list"

text \<open>The values of one column, top to bottom.\<close>

definition column_values :: "string \<Rightarrow> frame \<Rightarrow> cell option list" where
  "column_values c fr = map (\<lambda>r. r c) (rows fr)"

text \<open>
  \<open>DataFrame.assign\<close> with an array of values: the column is appended, or overwritten
  when a column of that name exists. An array of the wrong length is a \<open>ValueError\<close>.
\<close>

definition assign :: "string \<Rightarrow> cell option list \<Rightarrow> frame \<Rightarrow> error + frame" where
  "assign c vs fr =
     (if length vs \<noteq> length (rows fr)
      then Inl (ValueError ''Length of values does not match length of index'')
      else Inr \<lparr>columns = (if c \<in> set (columns fr) then columns fr else columns fr @ [c]),
                rows = map (\<lambda>(r, v). r(c := v)) (zip (rows fr) vs)\<rparr>)"

subsection \<open>\<open>read_corncob_results\<close>\<close>

text \<open>
  One line of the corncob CSV: the CAG, the name of the parameter, the type of the value
  (\<open>estimate\<close>, \<open>std_error\<close>, \<open>p_value\<close>, ...) and the value, which is a number: a
  line without a value is not part of the model. The line printed at lines 20 to 23
  has no effect on the result.
\<close>

record StatRow =
  CAG :: int
  parameter :: string
  type :: string
  val :: real

definition startswith :: "string \<Rightarrow> string \<Rightarrow> bool" where
  "startswith s p = (take (length p) s = p)"

text \<open>
  \<open>s.replace("mu.", "")\<close>: Python's \<open>str.replace\<close> removes every occurrence of the
  pattern, scanning from the left.
\<close>

fun replace_mu :: "string \<Rightarrow> string" where
  "replace_mu [] = []"
| "replace_mu (c # s) =
     (if startswith (c # s) ''mu.'' then replace_mu (drop 2 s) else c # replace_mu s)"

text \<open>
  \<open>pivot_table(index = ["CAG", "parameter"], columns = "type", values = "value")\<close>:
  one row for each pair of CAG and parameter and one column for each type, both sorted;
  a cell is the mean (the default \<open>aggfunc\<close>) of the values with that CAG, parameter
  and type, and is missing when there is none.
\<close>

definition mean :: "real list \<Rightarrow> real" where
  "mean xs = sum_list xs / real (length xs)"

record pivoted =
  index :: "(int \<times> string) list"
  types :: "string list"
  cells :: "int \<times> string \<Rightarrow> string \<rightharpoonup> real"

definition pivot_table :: "StatRow list \<Rightarrow> pivoted" where
  "pivot_table df =
     \<lparr>index = sort (remdups (map (\<lambda>r. (CAG r, parameter r)) df)),
      types = sort (remdups (map type df)),
      cells = (\<lambda>k t.
        let vs = map val (filter (\<lambda>r. (CAG r, parameter r) = k \<and> type r = t) df)
        in if vs = [] then None else Some (mean vs))\<rparr>"

text \<open>
  \<open>reset_index\<close> turns the two index levels into the columns \<open>CAG\<close> and \<open>parameter\<close>,
  and raises a \<open>ValueError\<close> when a column of that name is there already.
\<close>

definition reset_index :: "pivoted \<Rightarrow> error + frame" where
  "reset_index p =
     (if ''parameter'' \<in> set (types p)
      then Inl (ValueError ''cannot insert parameter, already exists'')
      else if ''CAG'' \<in> set (types p)
      then Inl (ValueError ''cannot insert CAG, already exists'')
      else Inr \<lparr>columns = [''CAG'', ''parameter''] @ types p,
                rows = map (\<lambda>k. (map_option N \<circ> cells p k)
                                  (''CAG'' \<mapsto> I (fst k), ''parameter'' \<mapsto> S (snd k)))
                         (index p)\<rparr>)"

text \<open>The \<open>apply\<close> of line 35: \<open>replace\<close> on every cell of the column \<open>parameter\<close>.\<close>

definition strip_parameter :: "frame \<Rightarrow> frame" where
  "strip_parameter fr =
     fr\<lparr>rows := map (\<lambda>r. case r ''parameter'' of
                            Some (S s) \<Rightarrow> r(''parameter'' \<mapsto> S (replace_mu s))
                          | _ \<Rightarrow> r) (rows fr)\<rparr>"

text \<open>\<open>fillna\<close> on a column of the pivot, whose cells are numbers or missing.\<close>

definition fillna :: "real \<Rightarrow> cell option \<Rightarrow> real" where
  "fillna d c = (case c of Some (N x) \<Rightarrow> x | _ \<Rightarrow> d)"

text \<open>
  Lines 40 to 45. \<open>multipletests\<close> is the function of statsmodels and a parameter here:
  it takes the p-values, the rate and the name of the method and returns the corrected
  p-values (item 1 of its result) or raises.
\<close>

definition add_q_value ::
    "(real list \<Rightarrow> real \<Rightarrow> string \<Rightarrow> error + real list) \<Rightarrow> string \<Rightarrow> frame \<Rightarrow> error + frame" where
  "add_q_value multipletests fdr_method corncob_wide =
     (if ''p_value'' \<in> set (columns corncob_wide)
      then case multipletests (map (fillna 1) (column_values ''p_value'' corncob_wide))
                  (2 / 10) fdr_method of
             Inl e \<Rightarrow> Inl e
           | Inr q \<Rightarrow> assign ''q_value'' (map (\<lambda>x. Some (N x)) q) corncob_wide
      else Inr corncob_wide)"

text \<open>
  Lines 47 to 50. Reading a column that does not exist is a \<open>KeyError\<close>. The quotient
  of two cells is missing when one of them is; a division by zero gives an infinity or
  NaN in pandas and no finite number, which is \<open>None\<close> here as well.
\<close>

definition divide_cells :: "cell option \<Rightarrow> cell option \<Rightarrow> cell option" where
  "divide_cells e s =
     (case (e, s) of
        (Some (N x), Some (N y)) \<Rightarrow> if y = 0 then None else Some (N (x / y))
      | _ \<Rightarrow> None)"

definition add_wald :: "frame \<Rightarrow> error + frame" where
  "add_wald corncob_wide =
     (if ''estimate'' \<notin> set (columns corncob_wide) then Inl (KeyError ''estimate'')
      else if ''std_error'' \<notin> set (columns corncob_wide) then Inl (KeyError ''std_error'')
      else assign ''wald''
             (map (\<lambda>r. divide_cells (r ''estimate'') (r ''std_error'')) (rows corncob_wide))
             corncob_wide)"

text \<open>The rows of the CSV that the reshape selects.\<close>

definition mu_rows :: "StatRow list \<Rightarrow> StatRow list" where
  "mu_rows corncob_df = filter (\<lambda>r. startswith (parameter r) ''mu.'') corncob_df"

definition read_corncob_results ::
    "(real list \<Rightarrow> real \<Rightarrow> string \<Rightarrow> error + real list) \<Rightarrow> string \<Rightarrow> StatRow list
       \<Rightarrow> error + frame" where
  "read_corncob_results multipletests fdr_method corncob_df =
     (case reset_index (pivot_table (mu_rows corncob_df)) of
        Inl e \<Rightarrow> Inl e
      | Inr wide \<Rightarrow>
          (case add_q_value multipletests fdr_method (strip_parameter wide) of
             Inl e \<Rightarrow> Inl e
           | Inr corncob_wide \<Rightarrow> add_wald corncob_wide))"

text \<open>
  Reading the long table back: the value of the line with this CAG, parameter and type
  (the first one, which is the only one when the three are a key of the table).
\<close>

definition stat_value :: "StatRow list \<Rightarrow> int \<Rightarrow> string \<Rightarrow> string \<Rightarrow> real option" where
  "stat_value df c p t =
     map_option val (find (\<lambda>r. (CAG r, parameter r, type r) = (c, p, t)) df)"

subsection \<open>\<open>write_corncob_by_annot\<close>\<close>

text \<open>
  The gene annotation table: each gene has its CAG and, in each annotation column
  (\<open>species\<close>, \<open>genus\<close>, \<open>family\<close>, \<open>eggNOG_desc\<close>), a text or nothing.
\<close>

record Feature =
  feature_CAG :: int
  annotations :: "string \<rightharpoonup> string"

record gene_annot =
  annot_columns :: "string list"
  features :: "Feature list"

text \<open>
  \<open>gene_annot.groupby(col_name)\<close>: one group for each value of the column, in sorted
  order; genes with a missing value are in no group.
\<close>

definition groupby :: "string \<Rightarrow> gene_annot \<Rightarrow> (string \<times> Feature list) list" where
  "groupby col_name ga =
     map (\<lambda>label. (label, filter (\<lambda>g. annotations g col_name = Some label) (features ga)))
       (sort (remdups (List.map_filter (\<lambda>g. annotations g col_name) (features ga))))"

text \<open>
  \<open>corncob_wide.loc[corncob_wide["CAG"].isin(...)]\<close>: the rows whose CAG is one of
  the CAGs of the group.
\<close>

definition isin_CAG :: "frame \<Rightarrow> int list \<Rightarrow> frame" where
  "isin_CAG fr cags =
     fr\<lparr>rows := filter (\<lambda>r. case r ''CAG'' of Some (I c) \<Rightarrow> c \<in> set cags | _ \<Rightarrow> False)
                    (rows fr)\<rparr>"

text \<open>\<open>DataFrame.assign\<close> with one value for the whole column.\<close>

definition assign_scalar :: "string \<Rightarrow> cell \<Rightarrow> frame \<Rightarrow> frame" where
  "assign_scalar c v fr =
     \<lparr>columns = (if c \<in> set (columns fr) then columns fr else columns fr @ [c]),
      rows = map (\<lambda>r. r(c \<mapsto> v)) (rows fr)\<rparr>"

text \<open>The list \<open>df\<close> of lines 147 to 157: one frame for each column and label.\<close>

definition group_frames :: "frame \<Rightarrow> gene_annot \<Rightarrow> string list \<Rightarrow> frame list" where
  "group_frames corncob_wide ga col_name_list =
     concat (map (\<lambda>col_name.
        map (\<lambda>(label, genes_with_label).
               assign_scalar ''annotation'' (S col_name)
                 (assign_scalar ''label'' (S label)
                    (isin_CAG corncob_wide (map feature_CAG genes_with_label))))
            (groupby col_name ga)) col_name_list)"

text \<open>
  What the function leaves behind: the files written, each with the number put into
  the name \<open>corncob.for.betta.{}.csv.gz\<close>, in the order of writing, and the lines
  printed. The line of line 171 is kept as its two arguments.
\<close>

datatype message = Skipping "cell option" nat

record outcome =
  files :: "(nat \<times> frame) list"
  printed :: "message list"

definition to_csv :: "nat \<Rightarrow> frame \<Rightarrow> outcome \<Rightarrow> outcome" where
  "to_csv ix fr out = out\<lparr>files := files out @ [(ix, fr)]\<rparr>"

definition print :: "message \<Rightarrow> outcome \<Rightarrow> outcome" where
  "print msg out = out\<lparr>printed := printed out @ [msg]\<rparr>"

text \<open>\<open>pd.concat\<close> of frames: the rows one after the other, the columns united.\<close>

definition concat_frames :: "frame list \<Rightarrow> frame" where
  "concat_frames batch =
     \<lparr>columns = remdups (concat (map columns batch)), rows = concat (map rows batch)\<rparr>"

text \<open>
  \<open>i["label"].values[0]\<close>; it is read only for a frame of 50000 rows or more, which has
  a first row.
\<close>

definition first_label :: "frame \<Rightarrow> cell option" where
  "first_label i = (case rows i of [] \<Rightarrow> None | r # _ \<Rightarrow> r ''label'')"

definition skip_message :: "frame \<Rightarrow> message" where
  "skip_message i = Skipping (first_label i) (length (rows i))"

text \<open>
  The loop of lines 166 to 186 with its variables \<open>ix\<close>, \<open>batch_size\<close> and \<open>batch\<close>, and
  after the loop the lines 189 to 193.
\<close>

fun write_batches :: "frame list \<Rightarrow> nat \<Rightarrow> nat \<Rightarrow> frame list \<Rightarrow> outcome \<Rightarrow> outcome" where
  "write_batches [] ix batch_size batch out =
     (if length batch > 0 then to_csv ix (concat_frames batch) out else out)"
| "write_batches (i # df) ix batch_size batch out =
     (if length (rows i) \<ge> 50000
      then write_batches df ix batch_size batch (print (skip_message i) out)
      else if batch_size + length (rows i) \<ge> 10000
      then write_batches df (ix + 1) 0 [] (to_csv ix (concat_frames (batch @ [i])) out)
      else write_batches df ix (batch_size + length (rows i)) (batch @ [i]) out)"


text \<open>The dummy table of lines 197 to 201 and 247 to 251.\<close>

definition dummy :: frame where
  "dummy = \<lparr>columns = [''estimate'', ''p_value'', ''parameter''],
            rows = [[''estimate'' \<mapsto> I 1, ''p_value'' \<mapsto> I 1, ''parameter'' \<mapsto> S ''dummy'']]\<rparr>"

definition no_output :: outcome where
  "no_output = \<lparr>files = [], printed = []\<rparr>"

text \<open>
  The assertion of line 144 comes first. Reading the column \<open>CAG\<close> of a table that has
  none is a \<open>KeyError\<close>, raised when the first group is built.
\<close>

definition write_corncob_by_annot ::
    "frame \<Rightarrow> gene_annot \<Rightarrow> string list \<Rightarrow> error + outcome" where
  "write_corncob_by_annot corncob_wide ga col_name_list =
     (if \<not> list_all (\<lambda>col_name. col_name \<in> set (annot_columns ga)) col_name_list
      then Inl AssertionError
      else let df = group_frames corncob_wide ga col_name_list in
        if length df > 0
        then if ''CAG'' \<in> set (columns corncob_wide)
             then Inr (write_batches df 0 0 [] no_output)
             else Inl (KeyError ''CAG'')
        else Inr (to_csv 0 dummy no_output))"

subsection \<open>The script\<close>

text \<open>Lines 213 to 230: the annotation columns to use.\<close>

definition columns_to_use :: "gene_annot \<Rightarrow> string list" where
  "columns_to_use ga =
     (if ''tax_id'' \<in> set (annot_columns ga) then [''species'', ''genus'', ''family''] else [])
     @ (if ''eggNOG_desc'' \<in> set (annot_columns ga) then [''eggNOG_desc''] else [])"

text \<open>
  \<open>corncob_wide.query("parameter != '(Intercept)'")\<close>; a table without the column makes
  the query fail.
\<close>

definition query_not_intercept :: "frame \<Rightarrow> error + frame" where
  "query_not_intercept fr =
     (if ''parameter'' \<in> set (columns fr)
      then Inr (fr\<lparr>rows := filter (\<lambda>r. r ''parameter'' \<noteq> Some (S ''(Intercept)'')) (rows fr)\<rparr>)
      else Inl (KeyError ''parameter''))"

text \<open>
  Lines 236 to 254, with the list of columns as an argument; the annotation table is the
  one that \<open>annotate_taxa\<close> has extended with the columns of the ranks.
\<close>

definition write_for_betta :: "frame \<Rightarrow> gene_annot \<Rightarrow> string list \<Rightarrow> error + outcome" where
  "write_for_betta corncob_wide ga cols =
     (if length cols > 0
      then case query_not_intercept corncob_wide of
             Inl e \<Rightarrow> Inl e
           | Inr wide \<Rightarrow> write_corncob_by_annot wide ga cols
      else Inr (to_csv 0 dummy no_output))"

subsection \<open>Example inputs\<close>



text \<open>
  An instance of \<open>multipletests\<close> for the examples: the Bonferroni method of
  statsmodels, which multiplies each p-value by the number of tests and caps it at 1.
\<close>

definition bonferroni :: "real list \<Rightarrow> real \<Rightarrow> string \<Rightarrow> error + real list" where
  "bonferroni pvals alpha method =
     (if method = ''bonferroni''
      then Inr (map (\<lambda>p. min 1 (p * real (length pvals))) pvals)
      else Inl (ValueError ''method not recognized''))"

text \<open>Results for one CAG and one parameter.\<close>

definition df_treatment :: "StatRow list" where
  "df_treatment =
     [\<lparr>CAG = 7, parameter = ''mu.(Intercept)'', type = ''estimate'', val = - 5\<rparr>,
      \<lparr>CAG = 7, parameter = ''mu.treatment'', type = ''estimate'', val = 3\<rparr>,
      \<lparr>CAG = 7, parameter = ''mu.treatment'', type = ''std_error'', val = 2\<rparr>,
      \<lparr>CAG = 7, parameter = ''mu.treatment'', type = ''p_value'', val = 1 / 4\<rparr>,
      \<lparr>CAG = 7, parameter = ''phi.treatment'', type = ''estimate'', val = 1\<rparr>]"

text \<open>A table without any \<open>mu.\<close> parameter, and one with a p-value only.\<close>

definition df_no_mu :: "StatRow list" where
  "df_no_mu =
     [\<lparr>CAG = 7, parameter = ''phi.treatment'', type = ''estimate'', val = 1\<rparr>]"

definition df_p_value_only :: "StatRow list" where
  "df_p_value_only =
     [\<lparr>CAG = 7, parameter = ''mu.treatment'', type = ''p_value'', val = 1 / 4\<rparr>]"

text \<open>A covariate whose own name contains \<open>mu.\<close>.\<close>

definition df_immu :: "StatRow list" where
  "df_immu =
     [\<lparr>CAG = 7, parameter = ''mu.immu.status'', type = ''estimate'', val = 3\<rparr>,
      \<lparr>CAG = 7, parameter = ''mu.immu.status'', type = ''std_error'', val = 2\<rparr>]"

text \<open>A table in which one type of value is called \<open>q_value\<close>.\<close>

definition df_q_type :: "StatRow list" where
  "df_q_type =
     [\<lparr>CAG = 7, parameter = ''mu.treatment'', type = ''estimate'', val = 3\<rparr>,
      \<lparr>CAG = 7, parameter = ''mu.treatment'', type = ''std_error'', val = 2\<rparr>,
      \<lparr>CAG = 7, parameter = ''mu.treatment'', type = ''q_value'', val = 1 / 2\<rparr>]"

text \<open>
  A wide table with one row for each of the CAGs 0 to \<open>n - 1\<close>, and an annotation table
  with one gene in each of these CAGs, all of the same genus and eggNOG description.
\<close>

definition wide_row :: "nat \<Rightarrow> row" where
  "wide_row i =
     [''CAG'' \<mapsto> I (int i), ''parameter'' \<mapsto> S ''treatment'', ''estimate'' \<mapsto> N 3,
      ''p_value'' \<mapsto> N (1 / 4), ''std_error'' \<mapsto> N 2, ''q_value'' \<mapsto> N (1 / 2),
      ''wald'' \<mapsto> N (3 / 2)]"

definition wide_n :: "nat \<Rightarrow> frame" where
  "wide_n n =
     \<lparr>columns = [''CAG'', ''parameter'', ''estimate'', ''p_value'', ''std_error'', ''q_value'',
                 ''wald''],
      rows = map wide_row [0..<n]\<rparr>"

definition gene_n :: "nat \<Rightarrow> Feature" where
  "gene_n i =
     \<lparr>feature_CAG = int i,
      annotations = [''genus'' \<mapsto> ''Bacteroides'', ''eggNOG_desc'' \<mapsto> ''ABC transporter'']\<rparr>"

definition annot_n :: "nat \<Rightarrow> gene_annot" where
  "annot_n n =
     \<lparr>annot_columns = [''gene'', ''CAG'', ''genus'', ''eggNOG_desc''],
      features = map gene_n [0..<n]\<rparr>"

text \<open>The frame of the one group of a column of \<open>annot_n n\<close>.\<close>

definition group_n :: "nat \<Rightarrow> string \<Rightarrow> string \<Rightarrow> frame" where
  "group_n n col_name label =
     assign_scalar ''annotation'' (S col_name) (assign_scalar ''label'' (S label) (wide_n n))"

text \<open>A wide table with an intercept, and the annotation of one gene of its CAG.\<close>

definition wide_7 :: frame where
  "wide_7 =
     \<lparr>columns = [''CAG'', ''parameter'', ''estimate'', ''std_error'', ''wald''],
      rows = [[''CAG'' \<mapsto> I 7, ''parameter'' \<mapsto> S ''(Intercept)'', ''estimate'' \<mapsto> N (- 5),
               ''std_error'' \<mapsto> N 1, ''wald'' \<mapsto> N (- 5)],
              [''CAG'' \<mapsto> I 7, ''parameter'' \<mapsto> S ''treatment'', ''estimate'' \<mapsto> N 3,
               ''std_error'' \<mapsto> N 2, ''wald'' \<mapsto> N (3 / 2)]]\<rparr>"

definition annot_7 :: gene_annot where
  "annot_7 =
     \<lparr>annot_columns = [''gene'', ''CAG'', ''genus''],
      features = [\<lparr>feature_CAG = 7, annotations = [''genus'' \<mapsto> ''Bacteroides'']\<rparr>]\<rparr>"

section \<open>Properties\<close>

subsection \<open>Termination of \<open>ancestors\<close>\<close>









subsection \<open>The ancestor at a rank\<close>







subsection \<open>The reshape\<close>

lemma read_corncob_results_Inr:
  assumes "read_corncob_results mt m df = Inr w"
  obtains wide q where "reset_index (pivot_table (mu_rows df)) = Inr wide"
    and "add_q_value mt m (strip_parameter wide) = Inr q"
    and "add_wald q = Inr w"
  using assms by (auto simp: read_corncob_results_def split: sum.splits)

lemma reset_index_Inr:
  assumes "reset_index p = Inr fr"
  shows "columns fr = ''CAG'' # ''parameter'' # types p"
    and "rows fr = map (\<lambda>k. (map_option N \<circ> cells p k)
                                  (''CAG'' \<mapsto> I (fst k), ''parameter'' \<mapsto> S (snd k))) (index p)"
    and "''CAG'' \<notin> set (types p)" and "''parameter'' \<notin> set (types p)"
  using assms by (auto simp: reset_index_def split: if_splits)

lemma assign_Inr:
  assumes "assign c vs fr = Inr fr'"
  shows "length vs = length (rows fr)"
    and "set (columns fr') = insert c (set (columns fr))"
    and "rows fr' = map (\<lambda>(r, v). r(c := v)) (zip (rows fr) vs)"
  using assms by (auto simp: assign_def split: if_splits)

lemma assign_column_same:
  assumes "assign c vs fr = Inr fr'"
  shows "column_values c fr' = vs"
proof -
  from assign_Inr [OF assms] have "length vs = length (rows fr)"
    and "rows fr' = map (\<lambda>(r, v). r(c := v)) (zip (rows fr) vs)" by auto
  then show ?thesis
    by (auto simp: column_values_def intro!: nth_equalityI)
qed

lemma assign_column_other:
  assumes "assign c vs fr = Inr fr'" and "d \<noteq> c"
  shows "column_values d fr' = column_values d fr"
proof -
  from assign_Inr [OF assms(1)] have "length vs = length (rows fr)"
    and "rows fr' = map (\<lambda>(r, v). r(c := v)) (zip (rows fr) vs)" by auto
  with assms(2) show ?thesis
    by (auto simp: column_values_def intro!: nth_equalityI)
qed

lemma strip_parameter_columns [simp]: "columns (strip_parameter fr) = columns fr"
  by (simp add: strip_parameter_def)

lemma strip_parameter_column_other:
  "d \<noteq> ''parameter'' \<Longrightarrow> column_values d (strip_parameter fr) = column_values d fr"
  by (auto simp: column_values_def strip_parameter_def split: option.splits cell.splits)

lemma add_wald_Inr:
  assumes "add_wald q = Inr w"
  shows "''estimate'' \<in> set (columns q)" and "''std_error'' \<in> set (columns q)"
    and "set (columns w) = insert ''wald'' (set (columns q))"
    and "d \<noteq> ''wald'' \<Longrightarrow> column_values d w = column_values d q"
proof -
  from assms show e: "''estimate'' \<in> set (columns q)" and s: "''std_error'' \<in> set (columns q)"
    by (auto simp: add_wald_def split: if_splits)
  with assms have a: "assign ''wald''
      (map (\<lambda>r. divide_cells (r ''estimate'') (r ''std_error'')) (rows q)) q = Inr w"
    by (simp add: add_wald_def)
  from assign_Inr(2) [OF a] show "set (columns w) = insert ''wald'' (set (columns q))" .
  show "d \<noteq> ''wald'' \<Longrightarrow> column_values d w = column_values d q"
    by (rule assign_column_other [OF a])
qed

lemma add_q_value_Inr:
  assumes "add_q_value mt m fr = Inr q"
  shows "set (columns q) = (if ''p_value'' \<in> set (columns fr)
                            then insert ''q_value'' (set (columns fr)) else set (columns fr))"
    and "d \<noteq> ''q_value'' \<Longrightarrow> column_values d q = column_values d fr"
    and "''p_value'' \<in> set (columns fr) \<Longrightarrow>
           \<exists>qs. mt (map (fillna 1) (column_values ''p_value'' fr)) (2 / 10) m = Inr qs
             \<and> length qs = length (rows fr)
             \<and> column_values ''q_value'' q = map (\<lambda>x. Some (N x)) qs"
proof -
  show "set (columns q) = (if ''p_value'' \<in> set (columns fr)
                            then insert ''q_value'' (set (columns fr)) else set (columns fr))"
    using assms assign_Inr(2)
    by (fastforce simp: add_q_value_def split: if_splits sum.splits)
  show "d \<noteq> ''q_value'' \<Longrightarrow> column_values d q = column_values d fr"
    using assms assign_column_other
    by (fastforce simp: add_q_value_def split: if_splits sum.splits)
  show "''p_value'' \<in> set (columns fr) \<Longrightarrow>
           \<exists>qs. mt (map (fillna 1) (column_values ''p_value'' fr)) (2 / 10) m = Inr qs
             \<and> length qs = length (rows fr)
             \<and> column_values ''q_value'' q = map (\<lambda>x. Some (N x)) qs"
  proof -
    assume p: "''p_value'' \<in> set (columns fr)"
    with assms obtain qs where
      qs: "mt (map (fillna 1) (column_values ''p_value'' fr)) (2 / 10) m = Inr qs"
      and a: "assign ''q_value'' (map (\<lambda>x. Some (N x)) qs) fr = Inr q"
      by (auto simp: add_q_value_def split: sum.splits)
    from assign_Inr(1) [OF a] assign_column_same [OF a] qs show ?thesis by auto
  qed
qed

text \<open>
  C4, as the code has it. When no line has a parameter that starts with \<open>mu.\<close> the
  function raises \<open>KeyError('estimate')\<close>: an exception that reaches the caller, not an
  empty result. Lines with the prefix are not enough: the function returns a table only
  if some \<open>mu.\<close> line has the type \<open>estimate\<close> and some \<open>mu.\<close> line the type
  \<open>std_error\<close>.
\<close>

theorem read_corncob_results_failure:
  "(mu_rows df = [] \<longrightarrow> read_corncob_results mt m df = Inl (KeyError ''estimate'')) \<and>
   (read_corncob_results mt m df = Inr w \<longrightarrow>
      (\<exists>r \<in> set (mu_rows df). type r = ''estimate'') \<and>
      (\<exists>r \<in> set (mu_rows df). type r = ''std_error''))"
proof (intro conjI impI)
  assume "mu_rows df = []"
  then show "read_corncob_results mt m df = Inl (KeyError ''estimate'')"
    by (simp add: read_corncob_results_def pivot_table_def reset_index_def strip_parameter_def
        add_q_value_def add_wald_def)
next
  assume ok: "read_corncob_results mt m df = Inr w"
  then obtain wide q where wide: "reset_index (pivot_table (mu_rows df)) = Inr wide"
    and q: "add_q_value mt m (strip_parameter wide) = Inr q"
    and w: "add_wald q = Inr w"
    by (rule read_corncob_results_Inr)
  have cols: "set (columns q) \<subseteq> insert ''q_value'' (set (columns wide))"
    using add_q_value_Inr(1) [OF q] by (auto split: if_splits)
  have wcols: "set (columns wide) = {''CAG'', ''parameter''} \<union> type ` set (mu_rows df)"
    using reset_index_Inr(1) [OF wide] by (auto simp: pivot_table_def)
  have sub: "c \<in> type ` set (mu_rows df)"
    if "c \<in> set (columns q)" "c \<noteq> ''q_value''" "c \<noteq> ''CAG''" "c \<noteq> ''parameter''" for c
    using that cols wcols by auto
  have "''estimate'' \<in> type ` set (mu_rows df)"
    by (rule sub [OF add_wald_Inr(1) [OF w]]) simp_all
  then show "\<exists>r \<in> set (mu_rows df). type r = ''estimate''" by auto
  have "''std_error'' \<in> type ` set (mu_rows df)"
    by (rule sub [OF add_wald_Inr(2) [OF w]]) simp_all
  then show "\<exists>r \<in> set (mu_rows df). type r = ''std_error''" by auto
qed

lemma eval_treatment:
  "map_sum id (\<lambda>w. (column_values ''p_value'' w, column_values ''q_value'' w, column_values ''estimate'' w)) (read_corncob_results bonferroni ''bonferroni'' df_treatment)
    = Inr ([None, Some (N (1 / 4))], [Some (N 1), Some (N (1 / 2))], [Some (N (- 5)), Some (N 3)])"
  by (simp add: read_corncob_results_def mu_rows_def df_treatment_def startswith_def
      pivot_table_def reset_index_def strip_parameter_def add_q_value_def add_wald_def assign_def
      column_values_def fillna_def bonferroni_def mean_def divide_cells_def)

text \<open>
  C4 fails as stated: a table with a \<open>mu.\<close> line of type \<open>p_value\<close> and nothing else has
  the prefix and still ends in the \<open>KeyError\<close>.
\<close>

theorem read_corncob_results_failure_counterexample:
  "mu_rows df_p_value_only \<noteq> [] \<and>
   read_corncob_results bonferroni ''bonferroni'' df_p_value_only = Inl (KeyError ''estimate'')"
  by (simp add: read_corncob_results_def mu_rows_def df_p_value_only_def startswith_def
      pivot_table_def reset_index_def strip_parameter_def add_q_value_def add_wald_def assign_def
      column_values_def fillna_def bonferroni_def mean_def divide_cells_def)

text \<open>
  C7 fails on the code: for the parameter \<open>mu.immu.status\<close> the claim gives
  \<open>immu.status\<close>, and \<open>replace\<close> removes the second \<open>mu.\<close> too.
\<close>

theorem replace_removes_inner_mu:
  "map_sum id (column_values ''parameter'') (read_corncob_results bonferroni ''bonferroni'' df_immu)
     = Inr [Some (S ''imstatus'')]"
  by (simp add: read_corncob_results_def mu_rows_def df_immu_def startswith_def
      pivot_table_def reset_index_def strip_parameter_def add_q_value_def add_wald_def assign_def
      column_values_def fillna_def bonferroni_def mean_def divide_cells_def)

lemma column_values_length [simp]: "length (column_values c fr) = length (rows fr)"
  by (simp add: column_values_def)

lemma assign_rows_length:
  assumes "assign c vs fr = Inr fr'"
  shows "length (rows fr') = length (rows fr)"
  using assign_Inr(1,3) [OF assms] by simp

lemma add_q_value_rows_length:
  assumes "add_q_value mt m fr = Inr q"
  shows "length (rows q) = length (rows fr)"
  using assms assign_rows_length
  by (fastforce simp: add_q_value_def split: if_splits sum.splits)

lemma add_wald_rows_length:
  assumes "add_wald q = Inr w"
  shows "length (rows w) = length (rows q)"
  using assms assign_rows_length
  by (fastforce simp: add_wald_def split: if_splits)

lemma strip_parameter_rows_length [simp]:
  "length (rows (strip_parameter fr)) = length (rows fr)"
  by (simp add: strip_parameter_def)

text \<open>
  C6, as the code has it. The table returned has a column \<open>q_value\<close> if and only if the
  pivoted table has a column \<open>p_value\<close>, or has a column \<open>q_value\<close> of its own. When
  the pivoted table has a column \<open>p_value\<close>, the column \<open>q_value\<close> is what
  \<open>multipletests\<close> returns at the rate 0.2 and with the method given for the column
  \<open>p_value\<close> with every missing value replaced by 1: one value for each row, in the
  order of the rows.
\<close>

theorem q_value_column:
  assumes "read_corncob_results multipletests fdr_method corncob_df = Inr corncob_wide"
  shows "(''q_value'' \<in> set (columns corncob_wide) \<longleftrightarrow>
            ''p_value'' \<in> set (types (pivot_table (mu_rows corncob_df))) \<or>
            ''q_value'' \<in> set (types (pivot_table (mu_rows corncob_df)))) \<and>
         (''p_value'' \<in> set (types (pivot_table (mu_rows corncob_df))) \<longrightarrow>
            (\<exists>q. multipletests (map (fillna 1) (column_values ''p_value'' corncob_wide))
                    (2 / 10) fdr_method = Inr q \<and>
                 length q = length (rows corncob_wide) \<and>
                 column_values ''q_value'' corncob_wide = map (\<lambda>x. Some (N x)) q))"
proof -
  let ?pv = "pivot_table (mu_rows corncob_df)"
  from assms obtain wide q where wide: "reset_index ?pv = Inr wide"
    and q: "add_q_value multipletests fdr_method (strip_parameter wide) = Inr q"
    and w: "add_wald q = Inr corncob_wide"
    by (rule read_corncob_results_Inr)
  have wcols: "set (columns (strip_parameter wide)) = {''CAG'', ''parameter''} \<union> set (types ?pv)"
    using reset_index_Inr(1) [OF wide] by auto
  then have p: "''p_value'' \<in> set (columns (strip_parameter wide)) \<longleftrightarrow> ''p_value'' \<in> set (types ?pv)"
    and q0: "''q_value'' \<in> set (columns (strip_parameter wide)) \<longleftrightarrow> ''q_value'' \<in> set (types ?pv)"
    by simp_all
  have "''q_value'' \<in> set (columns corncob_wide) \<longleftrightarrow> ''q_value'' \<in> set (columns q)"
    using add_wald_Inr(3) [OF w] by simp
  also have "\<dots> \<longleftrightarrow> ''p_value'' \<in> set (types ?pv) \<or> ''q_value'' \<in> set (types ?pv)"
    using add_q_value_Inr(1) [OF q] p q0 by (simp split: if_splits)
  finally have first: "''q_value'' \<in> set (columns corncob_wide) \<longleftrightarrow>
      ''p_value'' \<in> set (types ?pv) \<or> ''q_value'' \<in> set (types ?pv)" .
  have second: "\<exists>qs. multipletests (map (fillna 1) (column_values ''p_value'' corncob_wide))
                    (2 / 10) fdr_method = Inr qs \<and>
                 length qs = length (rows corncob_wide) \<and>
                 column_values ''q_value'' corncob_wide = map (\<lambda>x. Some (N x)) qs"
    if "''p_value'' \<in> set (types ?pv)"
  proof -
    from that p have "''p_value'' \<in> set (columns (strip_parameter wide))" by simp
    from add_q_value_Inr(3) [OF q this] obtain qs where
      qs: "multipletests (map (fillna 1) (column_values ''p_value'' (strip_parameter wide)))
              (2 / 10) fdr_method = Inr qs"
      "length qs = length (rows (strip_parameter wide))"
      "column_values ''q_value'' q = map (\<lambda>x. Some (N x)) qs"
      by blast
    have pcol: "column_values ''p_value'' corncob_wide = column_values ''p_value'' (strip_parameter wide)"
      using add_wald_Inr(4) [OF w, of "''p_value''"] add_q_value_Inr(2) [OF q, of "''p_value''"]
      by simp
    have qcol: "column_values ''q_value'' corncob_wide = column_values ''q_value'' q"
      using add_wald_Inr(4) [OF w, of "''q_value''"] by simp
    have len: "length (rows corncob_wide) = length (rows (strip_parameter wide))"
      using add_wald_rows_length [OF w] add_q_value_rows_length [OF q] by simp
    from qs pcol qcol len show ?thesis by auto
  qed
  from first second show ?thesis by blast
qed

theorem q_value_column_witness:
  "map_sum id (column_values ''q_value'')
     (read_corncob_results bonferroni ''bonferroni'' df_treatment)
     = Inr [Some (N 1), Some (N (1 / 2))]"
proof -
  from eval_treatment obtain w where
    w: "read_corncob_results bonferroni ''bonferroni'' df_treatment = Inr w"
    and p: "column_values ''p_value'' w = [None, Some (N (1 / 4))]"
    by (cases "read_corncob_results bonferroni ''bonferroni'' df_treatment") auto
  have "''p_value'' \<in> set (types (pivot_table (mu_rows df_treatment)))"
    by (simp add: pivot_table_def mu_rows_def df_treatment_def startswith_def)
  with q_value_column [OF w] p obtain q where
    "bonferroni (map (fillna 1) [None, Some (N (1 / 4))]) (2 / 10) ''bonferroni'' = Inr q"
    and "column_values ''q_value'' w = map (\<lambda>x. Some (N x)) q"
    by auto
  then have "column_values ''q_value'' w = [Some (N 1), Some (N (1 / 2))]"
    by (auto simp: bonferroni_def fillna_def)
  with w show ?thesis by simp
qed

text \<open>
  C6 fails as stated: with a type called \<open>q_value\<close> and no type \<open>p_value\<close> the table
  returned has a column \<open>q_value\<close>, which is the one of the pivot.
\<close>

theorem q_value_column_counterexample:
  "map_sum id columns (read_corncob_results bonferroni ''bonferroni'' df_q_type)
     = Inr [''CAG'', ''parameter'', ''estimate'', ''q_value'', ''std_error'', ''wald''] \<and>
   types (pivot_table (mu_rows df_q_type)) = [''estimate'', ''q_value'', ''std_error'']"
  by (simp add: read_corncob_results_def mu_rows_def df_q_type_def startswith_def
      pivot_table_def reset_index_def strip_parameter_def add_q_value_def add_wald_def assign_def
      column_values_def fillna_def bonferroni_def mean_def divide_cells_def)

lemma filter_unique_key:
  assumes "distinct (map f xs)"
  shows "filter (\<lambda>x. f x = k) xs = (case find (\<lambda>x. f x = k) xs of None \<Rightarrow> [] | Some x \<Rightarrow> [x])"
  using assms
proof (induction xs)
  case Nil
  then show ?case by simp
next
  case (Cons x xs)
  show ?case
  proof (cases "f x = k")
    case True
    from Cons.prems have "f x \<notin> f ` set xs" by simp
    with True have "\<forall>y \<in> set xs. f y \<noteq> k" by (metis imageI)
    then have "filter (\<lambda>x. f x = k) xs = []" by (simp add: filter_empty_conv)
    with True show ?thesis by simp
  next
    case False
    with Cons show ?thesis by simp
  qed
qed

lemma pivot_cell_unique:
  assumes uniq: "distinct (map (\<lambda>r. (CAG r, parameter r, type r)) df)"
    and mu: "startswith p ''mu.''"
  shows "cells (pivot_table (mu_rows df)) (c, p) t = stat_value df c p t"
proof -
  have "filter (\<lambda>r. (CAG r, parameter r) = (c, p) \<and> type r = t) (mu_rows df)
      = filter (\<lambda>r. (CAG r, parameter r, type r) = (c, p, t)) df"
    using mu unfolding mu_rows_def filter_filter
    by (intro filter_cong) auto
  also have "\<dots> = (case find (\<lambda>r. (CAG r, parameter r, type r) = (c, p, t)) df of
                      None \<Rightarrow> [] | Some x \<Rightarrow> [x])"
    by (rule filter_unique_key [OF uniq])
  finally show ?thesis
    by (simp add: pivot_table_def stat_value_def mean_def split: option.splits)
qed

lemma stat_value_present:
  assumes uniq: "distinct (map (\<lambda>r. (CAG r, parameter r, type r)) df)"
    and r: "r \<in> set df"
  shows "stat_value df (CAG r) (parameter r) (type r) = Some (val r)"
proof -
  let ?P = "\<lambda>x. (CAG x, parameter x, type x) = (CAG r, parameter r, type r)"
  from r have "r \<in> set (filter ?P df)" by simp
  also have "filter ?P df = (case find ?P df of None \<Rightarrow> [] | Some x \<Rightarrow> [x])"
    by (rule filter_unique_key [OF uniq])
  finally have "find ?P df = Some r"
    by (cases "find ?P df") simp_all
  then show ?thesis by (simp add: stat_value_def)
qed

text \<open>
  C9: when CAG, parameter and type are a key of the long table and the function returns,
  every line \<open>r\<close> with the prefix \<open>mu.\<close> has its row in the wide table, at the position
  of its pair in the index of the pivot. The row holds the CAG, the parameter with
  \<open>mu.\<close> removed, and in the columns \<open>estimate\<close>, \<open>std_error\<close> and \<open>p_value\<close> what
  reading the long table back gives for that pair: the value of the line of that type,
  and a missing cell when there is no such line.
\<close>

theorem reshape_round_trip:
  assumes uniq: "distinct (map (\<lambda>r. (CAG r, parameter r, type r)) corncob_df)"
    and ok: "read_corncob_results multipletests fdr_method corncob_df = Inr corncob_wide"
    and r: "r \<in> set corncob_df" and mu: "startswith (parameter r) ''mu.''"
  shows "\<exists>i < length (rows corncob_wide).
           index (pivot_table (mu_rows corncob_df)) ! i = (CAG r, parameter r) \<and>
           (rows corncob_wide ! i) ''CAG'' = Some (I (CAG r)) \<and>
           (rows corncob_wide ! i) ''parameter'' = Some (S (replace_mu (parameter r))) \<and>
           (\<forall>t \<in> {''estimate'', ''std_error'', ''p_value''}.
              (rows corncob_wide ! i) t
                = map_option N (stat_value corncob_df (CAG r) (parameter r) t)) \<and>
           (type r \<in> {''estimate'', ''std_error'', ''p_value''} \<longrightarrow>
              (rows corncob_wide ! i) (type r) = Some (N (val r)))"
proof -
  let ?pv = "pivot_table (mu_rows corncob_df)"
  let ?k = "(CAG r, parameter r)"
  from ok obtain wide q where wide: "reset_index ?pv = Inr wide"
    and q: "add_q_value multipletests fdr_method (strip_parameter wide) = Inr q"
    and w: "add_wald q = Inr corncob_wide"
    by (rule read_corncob_results_Inr)
  note wrows = reset_index_Inr(2) [OF wide]
  have len: "length (rows corncob_wide) = length (index ?pv)"
    using add_wald_rows_length [OF w] add_q_value_rows_length [OF q] wrows by simp
  from r mu have "?k \<in> set (index ?pv)"
    by (auto simp: pivot_table_def mu_rows_def)
  then obtain i where i: "i < length (index ?pv)" and k: "index ?pv ! i = ?k"
    by (auto simp: in_set_conv_nth)
  have cell: "(rows corncob_wide ! i) c = column_values c (strip_parameter wide) ! i"
    if "c \<noteq> ''q_value''" "c \<noteq> ''wald''" for c
  proof -
    have "(rows corncob_wide ! i) c = column_values c corncob_wide ! i"
      using i len by (simp add: column_values_def)
    also have "\<dots> = column_values c (strip_parameter wide) ! i"
      using add_wald_Inr(4) [OF w, of c] add_q_value_Inr(2) [OF q, of c] that by simp
    finally show ?thesis .
  qed
  have wide_i: "rows wide ! i = (map_option N \<circ> cells ?pv ?k)
      (''CAG'' \<mapsto> I (CAG r), ''parameter'' \<mapsto> S (parameter r))"
    using i k by (simp add: wrows)
  have li: "i < length (rows wide)" using i by (simp add: wrows)
  have other: "(rows corncob_wide ! i) c = (rows wide ! i) c"
    if "c \<noteq> ''q_value''" "c \<noteq> ''wald''" "c \<noteq> ''parameter''" for c
  proof -
    have "column_values c (strip_parameter wide) ! i = column_values c wide ! i"
      by (simp add: strip_parameter_column_other [OF that(3)])
    also have "\<dots> = (rows wide ! i) c"
      using li by (simp add: column_values_def)
    finally show ?thesis using cell [OF that(1,2)] by simp
  qed
  have "(rows corncob_wide ! i) ''CAG'' = Some (I (CAG r))"
    using other [of "''CAG''"] wide_i by simp
  moreover have "(rows corncob_wide ! i) ''parameter'' = Some (S (replace_mu (parameter r)))"
    using cell [of "''parameter''"] li wide_i
    by (simp add: column_values_def strip_parameter_def)
  moreover have three: "(rows corncob_wide ! i) t
      = map_option N (stat_value corncob_df (CAG r) (parameter r) t)"
    if "t \<in> {''estimate'', ''std_error'', ''p_value''}" for t
  proof -
    from that have "(rows corncob_wide ! i) t = (rows wide ! i) t"
      by (intro other) auto
    also from that have "\<dots> = map_option N (cells ?pv ?k t)"
      unfolding wide_i by auto
    also have "\<dots> = map_option N (stat_value corncob_df (CAG r) (parameter r) t)"
      by (simp add: pivot_cell_unique [OF uniq mu])
    finally show ?thesis .
  qed
  moreover have "(rows corncob_wide ! i) (type r) = Some (N (val r))"
    if "type r \<in> {''estimate'', ''std_error'', ''p_value''}"
    using three [OF that] stat_value_present [OF uniq r] by simp
  ultimately show ?thesis using i k len by auto
qed

theorem read_corncob_results_failure_witness:
  "mu_rows df_no_mu = [] \<and>
   read_corncob_results bonferroni ''bonferroni'' df_no_mu = Inl (KeyError ''estimate'') \<and>
   (\<exists>w. read_corncob_results bonferroni ''bonferroni'' df_treatment = Inr w) \<and>
   (\<exists>r \<in> set (mu_rows df_treatment). type r = ''estimate'') \<and>
   (\<exists>r \<in> set (mu_rows df_treatment). type r = ''std_error'')"
proof -
  have no: "mu_rows df_no_mu = []"
    by (simp add: mu_rows_def df_no_mu_def startswith_def)
  from eval_treatment obtain w where
    w: "read_corncob_results bonferroni ''bonferroni'' df_treatment = Inr w"
    by (cases "read_corncob_results bonferroni ''bonferroni'' df_treatment") auto
  from read_corncob_results_failure [of df_no_mu bonferroni "''bonferroni''"] no
    read_corncob_results_failure [of df_treatment bonferroni "''bonferroni''" w] w
  show ?thesis by blast
qed

theorem reshape_round_trip_witness:
  "distinct (map (\<lambda>r. (CAG r, parameter r, type r)) df_treatment) \<and>
   (\<exists>w i. read_corncob_results bonferroni ''bonferroni'' df_treatment = Inr w \<and>
      i < length (rows w) \<and>
      (rows w ! i) ''CAG'' = Some (I 7) \<and>
      (rows w ! i) ''parameter'' = Some (S ''treatment'') \<and>
      (rows w ! i) ''estimate'' = Some (N 3) \<and>
      (rows w ! i) ''std_error'' = Some (N 2) \<and>
      (rows w ! i) ''p_value'' = Some (N (1 / 4)))"
proof -
  let ?r = "\<lparr>CAG = 7, parameter = ''mu.treatment'', type = ''estimate'', val = 3\<rparr>"
  have uniq: "distinct (map (\<lambda>r. (CAG r, parameter r, type r)) df_treatment)"
    by (simp add: df_treatment_def)
  have r: "?r \<in> set df_treatment" by (simp add: df_treatment_def)
  have mu: "startswith (parameter ?r) ''mu.''" by (simp add: startswith_def)
  from eval_treatment obtain w where
    w: "read_corncob_results bonferroni ''bonferroni'' df_treatment = Inr w"
    by (cases "read_corncob_results bonferroni ''bonferroni'' df_treatment") auto
  from reshape_round_trip [OF uniq w r mu] obtain i where i: "i < length (rows w)"
    and c: "(rows w ! i) ''CAG'' = Some (I 7)"
    and p: "(rows w ! i) ''parameter'' = Some (S (replace_mu ''mu.treatment''))"
    and t: "\<forall>t \<in> {''estimate'', ''std_error'', ''p_value''}.
              (rows w ! i) t = map_option N (stat_value df_treatment 7 ''mu.treatment'' t)"
    by auto
  from p have p': "(rows w ! i) ''parameter'' = Some (S ''treatment'')"
    by (simp add: startswith_def)
  from t have "(rows w ! i) ''estimate'' = Some (N 3)"
    and "(rows w ! i) ''std_error'' = Some (N 2)"
    and "(rows w ! i) ''p_value'' = Some (N (1 / 4))"
    by (simp_all add: stat_value_def df_treatment_def)
  with uniq w i c p' show ?thesis by blast
qed

subsection \<open>The loop over the groups\<close>

lemma to_csv_simps [simp]:
  "files (to_csv ix fr out) = files out @ [(ix, fr)]"
  "printed (to_csv ix fr out) = printed out"
  by (simp_all add: to_csv_def)

lemma print_simps [simp]:
  "files (print msg out) = files out"
  "printed (print msg out) = printed out @ [msg]"
  by (simp_all add: print_def)



lemma write_batches_printed:
  "printed (write_batches df ix bs batch out)
     = printed out @ map skip_message (filter (\<lambda>g. 50000 \<le> length (rows g)) df)"
  by (induction df arbitrary: ix bs batch out) (simp_all add: skip_message_def)

lemma write_batches_whole_groups:
  "\<exists>bss. files (write_batches df ix bs batch out)
            = files out @ zip [ix..<ix + length bss] (map concat_frames bss)
         \<and> concat bss = batch @ filter (\<lambda>g. length (rows g) < 50000) df
         \<and> [] \<notin> set bss"
proof (induction df arbitrary: ix bs batch out)
  case Nil
  show ?case
  proof (cases "batch = []")
    case True
    then show ?thesis by (intro exI [of _ "[]"]) simp
  next
    case False
    then show ?thesis by (intro exI [of _ "[batch]"]) simp
  qed
next
  case (Cons i df)
  show ?case
  proof (cases "length (rows i) \<ge> 50000")
    case True
    from Cons.IH [of ix bs batch "print (skip_message i) out"] True
    show ?thesis by (simp add: skip_message_def)
  next
    case small: False
    show ?thesis
    proof (cases "bs + length (rows i) \<ge> 10000")
      case True
      from Cons.IH [of "ix + 1" 0 "[]" "to_csv ix (concat_frames (batch @ [i])) out"]
      obtain bss where bss: "files (write_batches df (ix + 1) 0 []
             (to_csv ix (concat_frames (batch @ [i])) out))
           = files (to_csv ix (concat_frames (batch @ [i])) out)
               @ zip [ix + 1..<ix + 1 + length bss] (map concat_frames bss)"
        "concat bss = [] @ filter (\<lambda>g. length (rows g) < 50000) df" "[] \<notin> set bss"
        by blast
      have "[ix..<ix + length ((batch @ [i]) # bss)] = ix # [ix + 1..<ix + 1 + length bss]"
        by (subst upt_rec) simp
      with bss small True show ?thesis
        by (intro exI [of _ "(batch @ [i]) # bss"]) simp
    next
      case False
      from Cons.IH [of ix "bs + length (rows i)" "batch @ [i]" out] small False
      show ?thesis by simp
    qed
  qed
qed

subsection \<open>The example tables\<close>

lemma groupby_annot_n:
  assumes "0 < n"
    and "[''genus'' \<mapsto> ''Bacteroides'', ''eggNOG_desc'' \<mapsto> ''ABC transporter''] col = Some label"
  shows "groupby col (annot_n n) = [(label, map gene_n [0..<n])]"
proof -
  have a: "annotations (gene_n i) col = Some label" for i
    using assms(2) by (simp add: gene_n_def)
  have mf: "List.map_filter (\<lambda>g. annotations g col) (map gene_n xs) = replicate (length xs) label"
    for xs :: "nat list"
    by (induction xs) (simp_all add: List.map_filter_simps a)
  have "remdups (replicate (Suc m) label) = [label]" for m
    by (induction m) simp_all
  with assms(1) have rd: "remdups (replicate n label) = [label]"
    by (cases n) simp_all
  have all: "filter (\<lambda>g. annotations g col = Some label) (map gene_n [0..<n]) = map gene_n [0..<n]"
    by (simp add: filter_map o_def a)
  show ?thesis
    by (simp add: groupby_def annot_n_def mf rd all)
qed

lemma isin_CAG_all:
  assumes "\<And>r. r \<in> set (rows fr) \<Longrightarrow> \<exists>c. r ''CAG'' = Some (I c) \<and> c \<in> set cags"
  shows "isin_CAG fr cags = fr"
proof -
  have "filter (\<lambda>r. case r ''CAG'' of Some (I c) \<Rightarrow> c \<in> set cags | _ \<Rightarrow> False) (rows fr) = rows fr"
    using assms by (intro filter_True) fastforce
  then show ?thesis by (simp add: isin_CAG_def)
qed

lemma isin_CAG_wide_n: "isin_CAG (wide_n n) (map (feature_CAG \<circ> gene_n) [0..<n]) = wide_n n"
proof (rule isin_CAG_all)
  fix r assume "r \<in> set (rows (wide_n n))"
  then obtain i where "i < n" and "r = wide_row i"
    by (auto simp: wide_n_def)
  then show "\<exists>c. r ''CAG'' = Some (I c) \<and> c \<in> set (map (feature_CAG \<circ> gene_n) [0..<n])"
    by (auto simp: wide_row_def gene_n_def image_iff)
qed

lemma group_frames_annot_n:
  assumes "0 < n"
  shows "group_frames (wide_n n) (annot_n n) [''genus'', ''eggNOG_desc'']
           = [group_n n ''genus'' ''Bacteroides'', group_n n ''eggNOG_desc'' ''ABC transporter'']"
    and "group_frames (wide_n n) (annot_n n) [''eggNOG_desc'']
           = [group_n n ''eggNOG_desc'' ''ABC transporter'']"
    and "group_frames (wide_n n) (annot_n n) [''genus'']
           = [group_n n ''genus'' ''Bacteroides'']"
  using assms
  by (simp_all add: group_frames_def groupby_annot_n isin_CAG_wide_n group_n_def)

lemma group_n_rows_length [simp]: "length (rows (group_n n col label)) = n"
  by (simp add: group_n_def assign_scalar_def wide_n_def)

lemma group_n_first_label:
  "0 < n \<Longrightarrow> first_label (group_n n col label) = Some (S label)"
  by (simp add: first_label_def group_n_def assign_scalar_def wide_n_def upt_conv_Cons)

lemma annot_n_columns_ok:
  "list_all (\<lambda>col_name. col_name \<in> set (annot_columns (annot_n n))) [''genus'', ''eggNOG_desc'']"
  "list_all (\<lambda>col_name. col_name \<in> set (annot_columns (annot_n n))) [''genus'']"
  "list_all (\<lambda>col_name. col_name \<in> set (annot_columns (annot_n n))) [''eggNOG_desc'']"
  by (simp_all add: annot_n_def)

subsection \<open>The batches\<close>

lemma write_corncob_by_annot_groups:
  assumes "write_corncob_by_annot corncob_wide ga col_name_list = Inr out"
    and "group_frames corncob_wide ga col_name_list \<noteq> []"
  shows "out = write_batches (group_frames corncob_wide ga col_name_list) 0 0 [] no_output"
  using assms by (auto simp: write_corncob_by_annot_def Let_def split: if_splits)


text \<open>
  C2, as the code has it. What decides is the number of rows of the group's frame, and
  the bound is 50000 itself. The groups with fewer than 50000 rows are the ones written:
  each is whole in one file, in the order of the groups, and the files are numbered
  from 0. The groups with 50000 rows or more are in no file, and for each of them one
  line is printed, in the order of the groups.
\<close>

theorem groups_skipped_at_50000_rows:
  assumes "write_corncob_by_annot corncob_wide ga col_name_list = Inr out"
    and "group_frames corncob_wide ga col_name_list \<noteq> []"
  shows "(\<exists>batches.
            concat batches = filter (\<lambda>i. length (rows i) < 50000)
                               (group_frames corncob_wide ga col_name_list) \<and>
            [] \<notin> set batches \<and>
            files out = zip [0..<length batches] (map concat_frames batches)) \<and>
         printed out = map skip_message
                         (filter (\<lambda>i. 50000 \<le> length (rows i))
                            (group_frames corncob_wide ga col_name_list))"
proof -
  let ?df = "group_frames corncob_wide ga col_name_list"
  from write_corncob_by_annot_groups [OF assms]
  have out: "out = write_batches ?df 0 0 [] no_output" .
  from write_batches_whole_groups [of ?df 0 0 "[]" no_output] out
  have "\<exists>batches. concat batches = filter (\<lambda>i. length (rows i) < 50000) ?df \<and>
            [] \<notin> set batches \<and>
            files out = zip [0..<length batches] (map concat_frames batches)"
    by (auto simp: no_output_def)
  moreover have "printed out = map skip_message (filter (\<lambda>i. 50000 \<le> length (rows i)) ?df)"
    unfolding out by (simp add: write_batches_printed no_output_def)
  ultimately show ?thesis by blast
qed

lemma wide_n_has_CAG [simp]: "''CAG'' \<in> set (columns (wide_n n))"
  by (simp add: wide_n_def)

lemma group_n_has_CAG [simp]: "''CAG'' \<in> set (columns (group_n n col label))"
  by (simp add: group_n_def assign_scalar_def wide_n_def)

lemma query_not_intercept_wide_n: "query_not_intercept (wide_n n) = Inr (wide_n n)"
proof -
  have "filter (\<lambda>r. r ''parameter'' \<noteq> Some (S ''(Intercept)'')) (rows (wide_n n)) = rows (wide_n n)"
    by (intro filter_True) (auto simp: wide_n_def wide_row_def)
  then show ?thesis
    by (simp add: query_not_intercept_def) (simp add: wide_n_def)
qed

lemma concat_singleton:
  assumes "concat bss = [x]" and "[] \<notin> set bss"
  shows "bss = [[x]]"
proof (cases bss)
  case Nil
  with assms show ?thesis by simp
next
  case (Cons b bs)
  with assms have b: "b \<noteq> []" and eq: "b @ concat bs = [x]" by auto
  then have "b = [x]" and "concat bs = []"
    by (auto simp: append_eq_Cons_conv)
  with assms(2) Cons have "bs = []"
    by (cases bs) auto
  with \<open>b = [x]\<close> Cons show ?thesis by simp
qed



theorem groups_skipped_at_50000_rows_witness:
  "\<exists>out. write_corncob_by_annot (wide_n 49999) (annot_n 49999) [''genus''] = Inr out \<and>
          files out = [(0, concat_frames [group_n 49999 ''genus'' ''Bacteroides''])] \<and>
          printed out = []"
proof -
  let ?g = "group_n 49999 ''genus'' ''Bacteroides''"
  have df: "group_frames (wide_n 49999) (annot_n 49999) [''genus''] = [?g]"
    by (rule group_frames_annot_n) simp
  have ok: "write_corncob_by_annot (wide_n 49999) (annot_n 49999) [''genus'']
      = Inr (write_batches [?g] 0 0 [] no_output)"
    unfolding write_corncob_by_annot_def df using annot_n_columns_ok(2) [of 49999]
    by (simp add: Let_def)
  have ne: "group_frames (wide_n 49999) (annot_n 49999) [''genus''] \<noteq> []"
    unfolding df by simp
  from groups_skipped_at_50000_rows [OF ok ne] obtain batches where
    b: "concat batches = [?g]" "[] \<notin> set batches"
    and f: "files (write_batches [?g] 0 0 [] no_output)
              = zip [0..<length batches] (map concat_frames batches)"
    and p: "printed (write_batches [?g] 0 0 [] no_output) = []"
    unfolding df by auto
  from concat_singleton [OF b] have "batches = [[?g]]" .
  with f have "files (write_batches [?g] 0 0 [] no_output) = [(0, concat_frames [?g])]"
    by simp
  with ok p show ?thesis by blast
qed

text \<open>
  C2 fails as stated: a group of exactly 50000 genes, in 50000 CAGs with one row each,
  is skipped.
\<close>

theorem group_of_50000_counterexample:
  "length (features (annot_n 50000)) = 50000 \<and>
   write_corncob_by_annot (wide_n 50000) (annot_n 50000) [''genus'']
     = Inr \<lparr>files = [], printed = [Skipping (Some (S ''Bacteroides'')) 50000]\<rparr>"
proof -
  have df: "group_frames (wide_n 50000) (annot_n 50000) [''genus'']
      = [group_n 50000 ''genus'' ''Bacteroides'']"
    by (rule group_frames_annot_n) simp
  have "write_corncob_by_annot (wide_n 50000) (annot_n 50000) [''genus'']
     = Inr \<lparr>files = [], printed = [Skipping (Some (S ''Bacteroides'')) 50000]\<rparr>"
    unfolding write_corncob_by_annot_def df using annot_n_columns_ok(2) [of 50000]
    by (simp add: Let_def no_output_def print_def skip_message_def group_n_first_label)
  then show ?thesis by (simp add: annot_n_def)
qed

text \<open>
  C3 fails on the code: when there are groups and each of them is skipped, the loop
  ends with an empty batch and no file is written, not even the dummy.
\<close>

theorem no_file_when_all_groups_skipped:
  "columns_to_use (annot_n 60000) = [''eggNOG_desc''] \<and>
   write_for_betta (wide_n 60000) (annot_n 60000) (columns_to_use (annot_n 60000))
     = Inr \<lparr>files = [], printed = [Skipping (Some (S ''ABC transporter'')) 60000]\<rparr>"
proof -
  have cols: "columns_to_use (annot_n 60000) = [''eggNOG_desc'']"
    by (simp add: columns_to_use_def annot_n_def)
  have df: "group_frames (wide_n 60000) (annot_n 60000) [''eggNOG_desc'']
      = [group_n 60000 ''eggNOG_desc'' ''ABC transporter'']"
    by (rule group_frames_annot_n) simp
  have "write_corncob_by_annot (wide_n 60000) (annot_n 60000) [''eggNOG_desc'']
     = Inr \<lparr>files = [], printed = [Skipping (Some (S ''ABC transporter'')) 60000]\<rparr>"
    unfolding write_corncob_by_annot_def df using annot_n_columns_ok(3) [of 60000]
    by (simp add: Let_def no_output_def print_def skip_message_def group_n_first_label)
  then show ?thesis
    unfolding cols by (simp add: write_for_betta_def query_not_intercept_wide_n)
qed

text \<open>
  The dummy file is the whole result when there is no column to use, and when there
  is no group at all.
\<close>

lemma dummy_without_columns:
  "write_for_betta corncob_wide ga [] = Inr \<lparr>files = [(0, dummy)], printed = []\<rparr>"
  by (simp add: write_for_betta_def to_csv_def no_output_def)

lemma dummy_without_groups:
  assumes "list_all (\<lambda>col_name. col_name \<in> set (annot_columns ga)) col_name_list"
    and "group_frames corncob_wide ga col_name_list = []"
  shows "write_corncob_by_annot corncob_wide ga col_name_list
           = Inr \<lparr>files = [(0, dummy)], printed = []\<rparr>"
  using assms by (simp add: write_corncob_by_annot_def to_csv_def no_output_def)

subsection \<open>The intercept\<close>

lemma assign_scalar_rows: "rows (assign_scalar c v fr) = map (\<lambda>r. r(c \<mapsto> v)) (rows fr)"
  by (simp add: assign_scalar_def)

lemma group_frames_rows:
  assumes "g \<in> set (group_frames corncob_wide ga col_name_list)" and "r \<in> set (rows g)"
  shows "\<exists>r0 \<in> set (rows corncob_wide). \<exists>l a. r = r0(''label'' \<mapsto> l, ''annotation'' \<mapsto> a)"
proof -
  from assms(1) obtain col l gs where
    g: "g = assign_scalar ''annotation'' (S col)
              (assign_scalar ''label'' (S l) (isin_CAG corncob_wide gs))"
    by (auto simp: group_frames_def)
  from assms(2) obtain r0 where r0: "r0 \<in> set (rows (isin_CAG corncob_wide gs))"
    and r: "r = r0(''label'' \<mapsto> S l, ''annotation'' \<mapsto> S col)"
    unfolding g by (auto simp: assign_scalar_rows)
  from r0 have "r0 \<in> set (rows corncob_wide)"
    by (simp add: isin_CAG_def)
  with r show ?thesis by blast
qed

lemma write_batches_rows:
  assumes "(ix, shard) \<in> set (files (write_batches df 0 0 [] no_output))"
    and "r \<in> set (rows shard)"
  shows "\<exists>g \<in> set df. r \<in> set (rows g)"
proof -
  from write_batches_whole_groups [of df 0 0 "[]" no_output] obtain bss where
    f: "files (write_batches df 0 0 [] no_output) = zip [0..<length bss] (map concat_frames bss)"
    and c: "concat bss = filter (\<lambda>g. length (rows g) < 50000) df"
    by (auto simp: no_output_def)
  from assms(1) f have "shard \<in> set (map concat_frames bss)"
    by (auto dest: set_zip_rightD)
  then obtain b where b: "b \<in> set bss" and s: "shard = concat_frames b" by auto
  from assms(2) s obtain g where g: "g \<in> set b" and r: "r \<in> set (rows g)"
    by (auto simp: concat_frames_def)
  from g b have "g \<in> set (concat bss)" by auto
  with c have "g \<in> set df" by simp
  with r show ?thesis by blast
qed

text \<open>
  C8: the script removes the rows of the parameter \<open>(Intercept)\<close> before it calls
  \<open>write_corncob_by_annot\<close>, so no row of any file written has this parameter.
\<close>

theorem no_intercept_in_shards:
  assumes "write_for_betta corncob_wide ga cols = Inr out"
    and "(ix, shard) \<in> set (files out)" and "r \<in> set (rows shard)"
  shows "r ''parameter'' \<noteq> Some (S ''(Intercept)'')"
proof (cases "cols = []")
  case True
  with assms(1) have "out = to_csv 0 dummy no_output"
    by (simp add: write_for_betta_def)
  with assms(2,3) show ?thesis
    by (auto simp: no_output_def dummy_def)
next
  case False
  with assms(1) obtain wide where q: "query_not_intercept corncob_wide = Inr wide"
    and w: "write_corncob_by_annot wide ga cols = Inr out"
    by (auto simp: write_for_betta_def split: sum.splits)
  from q have wide: "\<forall>r0 \<in> set (rows wide). r0 ''parameter'' \<noteq> Some (S ''(Intercept)'')"
    by (auto simp: query_not_intercept_def split: if_splits)
  show ?thesis
  proof (cases "group_frames wide ga cols = []")
    case True
    with w have "out = to_csv 0 dummy no_output"
      by (auto simp: write_corncob_by_annot_def Let_def split: if_splits)
    with assms(2,3) show ?thesis
      by (auto simp: no_output_def dummy_def)
  next
    case False
    from write_corncob_by_annot_groups [OF w False]
    have "out = write_batches (group_frames wide ga cols) 0 0 [] no_output" .
    with assms(2,3) write_batches_rows obtain g where
      "g \<in> set (group_frames wide ga cols)" and "r \<in> set (rows g)"
      by blast
    from group_frames_rows [OF this] obtain r0 l a where
      "r0 \<in> set (rows wide)" and "r = r0(''label'' \<mapsto> l, ''annotation'' \<mapsto> a)"
      by blast
    with wide show ?thesis by simp
  qed
qed

theorem no_intercept_in_shards_witness:
  "\<exists>out shard.
     write_for_betta wide_7 annot_7 [''genus''] = Inr out \<and>
     files out = [(0, shard)] \<and>
     map (\<lambda>r. r ''parameter'') (rows shard) = [Some (S ''treatment'')] \<and>
     (\<forall>r \<in> set (rows shard). r ''parameter'' \<noteq> Some (S ''(Intercept)''))"
proof -
  let ?shard = "\<lparr>columns = [''CAG'', ''parameter'', ''estimate'', ''std_error'', ''wald'',
                            ''label'', ''annotation''],
                 rows = [[''CAG'' \<mapsto> I 7, ''parameter'' \<mapsto> S ''treatment'', ''estimate'' \<mapsto> N 3,
                          ''std_error'' \<mapsto> N 2, ''wald'' \<mapsto> N (3 / 2),
                          ''label'' \<mapsto> S ''Bacteroides'', ''annotation'' \<mapsto> S ''genus'']]\<rparr>"
  have ok: "write_for_betta wide_7 annot_7 [''genus'']
      = Inr \<lparr>files = [(0, ?shard)], printed = []\<rparr>"
    by (simp add: write_for_betta_def query_not_intercept_def wide_7_def annot_7_def
        write_corncob_by_annot_def group_frames_def groupby_def List.map_filter_simps
        isin_CAG_def assign_scalar_def concat_frames_def no_output_def to_csv_def Let_def)
  have "\<forall>r \<in> set (rows ?shard). r ''parameter'' \<noteq> Some (S ''(Intercept)'')"
    using no_intercept_in_shards [OF ok, of 0 ?shard] by simp
  with ok show ?thesis by simp
qed

end
